theory Spec2Isabelle
  imports Complex_Main
begin

section \<open>Python values\<close>

text \<open>
  The fields of a \<open>Product\<close> are dynamically typed: whatever the caller or the JSON file
  supplies is stored. The values modelled are the scalars of the store's schema:
  \<open>None\<close>, a number and a string. Numbers are reals: Python's \<open>int\<close> and finite
  \<open>float\<close> compare as the numbers they denote. A difference is computed in floating
  point and is rounded; the subtraction is a parameter, given by the environment. The
  IEEE specials (\<open>inf\<close>, \<open>nan\<close>) and integers beyond the range of \<open>float\<close>, whose
  conversion raises \<open>OverflowError\<close>, are outside the model. Characters are code points
  below 256.
\<close>

datatype pyval = PyNone | PyNum real | PyStr string

datatype pyerr = TypeError | ValueError | KeyError

text \<open>Truth value testing, as \<open>if x:\<close> and \<open>x and y\<close> do it.\<close>

fun truthy :: "pyval \<Rightarrow> bool" where
  "truthy PyNone = False"
| "truthy (PyNum x) = (x \<noteq> 0)"
| "truthy (PyStr t) = (t \<noteq> [])"

text \<open>String comparison is lexicographic on code points.\<close>

fun str_le :: "string \<Rightarrow> string \<Rightarrow> bool" where
  "str_le [] ys = True"
| "str_le (x # xs) [] = False"
| "str_le (x # xs) (y # ys) =
     ((of_char x :: nat) < of_char y \<or> (x = y \<and> str_le xs ys))"

text \<open>\<open>a <= b\<close>, \<open>a < b\<close> and \<open>a - b\<close>: defined between two numbers (and, for the
  comparisons, between two strings); every other combination raises \<open>TypeError\<close>. The
  comparisons of Python are exact; the subtraction takes the floating point subtraction
  as its first argument.\<close>

fun py_le :: "pyval \<Rightarrow> pyval \<Rightarrow> pyerr + bool" where
  "py_le (PyNum a) (PyNum b) = Inr (a \<le> b)"
| "py_le (PyStr a) (PyStr b) = Inr (str_le a b)"
| "py_le _ _ = Inl TypeError"

fun py_lt :: "pyval \<Rightarrow> pyval \<Rightarrow> pyerr + bool" where
  "py_lt (PyNum a) (PyNum b) = Inr (a < b)"
| "py_lt (PyStr a) (PyStr b) = Inr (\<not> str_le b a)"
| "py_lt _ _ = Inl TypeError"

fun py_sub :: "(real \<Rightarrow> real \<Rightarrow> real) \<Rightarrow> pyval \<Rightarrow> pyval \<Rightarrow> pyerr + pyval" where
  "py_sub sub (PyNum a) (PyNum b) = Inr (PyNum (sub a b))"
| "py_sub sub _ _ = Inl TypeError"

text \<open>The format specification \<open>:.2f\<close> of an f-string: a number is formatted, a string
  raises \<open>ValueError\<close>, \<open>None\<close> raises \<open>TypeError\<close>. The formatted text is kept as the
  number it shows.\<close>

fun format_2f :: "pyval \<Rightarrow> pyerr + real" where
  "format_2f (PyNum x) = Inr x"
| "format_2f (PyStr t) = Inl ValueError"
| "format_2f PyNone = Inl TypeError"

text \<open>\<open>str.strip()\<close> removes white space at both ends; \<open>str.replace(c, '')\<close> deletes
  every occurrence of the character.\<close>

definition py_isspace :: "char \<Rightarrow> bool" where
  "py_isspace c = ((of_char c :: nat) \<in> {9, 10, 11, 12, 13, 28, 29, 30, 31, 32, 133, 160})"

definition strip :: "string \<Rightarrow> string" where
  "strip t = rev (dropWhile py_isspace (rev (dropWhile py_isspace t)))"

definition remove_char :: "char \<Rightarrow> string \<Rightarrow> string" where
  "remove_char c t = filter (\<lambda>x. x \<noteq> c) t"

section \<open>Product\<close>

record product =
  url :: pyval
  target_price :: pyval
  title :: pyval
  current_price :: pyval
  last_checked :: pyval

text \<open>\<open>Product.__init__(url, target_price, title=None, current_price=None)\<close>\<close>

definition Product :: "pyval \<Rightarrow> pyval \<Rightarrow> pyval \<Rightarrow> pyval \<Rightarrow> product" where
  "Product u tp t cp =
     \<lparr>url = u, target_price = tp, title = t, current_price = cp, last_checked = PyNone\<rparr>"

text \<open>A dictionary with string keys, in insertion order.\<close>

type_synonym pydict = "(string \<times> pyval) list"

definition to_dict :: "product \<Rightarrow> pydict" where
  "to_dict p =
     [(''url'', url p),
      (''target_price'', target_price p),
      (''title'', title p),
      (''current_price'', current_price p),
      (''last_checked'', last_checked p)]"

text \<open>\<open>data[k]\<close> raises \<open>KeyError\<close> for a missing key.\<close>

definition getitem :: "pydict \<Rightarrow> string \<Rightarrow> pyerr + pyval" where
  "getitem d k = (case map_of d k of None \<Rightarrow> Inl KeyError | Some v \<Rightarrow> Inr v)"

definition from_dict :: "pydict \<Rightarrow> pyerr + product" where
  "from_dict d =
     (case getitem d ''url'' of Inl e \<Rightarrow> Inl e | Inr u \<Rightarrow>
      case getitem d ''target_price'' of Inl e \<Rightarrow> Inl e | Inr tp \<Rightarrow>
      let p = Product u tp PyNone PyNone in
      case getitem d ''title'' of Inl e \<Rightarrow> Inl e | Inr t \<Rightarrow>
      case getitem d ''current_price'' of Inl e \<Rightarrow> Inl e | Inr cp \<Rightarrow>
      case getitem d ''last_checked'' of Inl e \<Rightarrow> Inl e | Inr lc \<Rightarrow>
      Inr (p\<lparr>title := t, current_price := cp, last_checked := lc\<rparr>))"

text \<open>The list comprehension \<open>[Product.from_dict(p) for p in data]\<close>: the first
  exception ends it.\<close>

fun from_dicts :: "pydict list \<Rightarrow> pyerr + product list" where
  "from_dicts [] = Inr []"
| "from_dicts (d # ds) =
     (case from_dict d of Inl e \<Rightarrow> Inl e | Inr p \<Rightarrow>
      case from_dicts ds of Inl e \<Rightarrow> Inl e | Inr ps \<Rightarrow> Inr (p # ps))"

section \<open>The tracker and its environment\<close>

text \<open>What \<open>print_colored\<close> writes, one constructor for each call in the tracker, with
  the values the text is formatted from.\<close>

datatype msg =
    Error_loading | Error_saving
  | Fetching | Response_status int | Failed_status int | Blocking
  | Found_title string | Title_not_found
  | Found_price real | Error_converting string | Price_not_found | Anti_bot
  | Network_error | Will_retry | Error_getting
  | Receiver_not_set | Updated_count nat
  | Product_line pyval | Below_target pyval | Current_line pyval
  | Notification_sent | Failed_to_send

text \<open>The file \<open>products.json\<close>: absent, holding something that \<open>json.load\<close> or
  \<open>from_dict\<close> cannot read as an array of objects (or unreadable), or holding an array of
  objects with scalar members. \<open>json.dump\<close> followed by \<open>json.load\<close> returns the
  document written, so the file holds the document itself.\<close>

datatype file_content = Absent | Malformed | Doc "pydict list"

text \<open>What BeautifulSoup finds in a page: the text of the element with id
  \<open>productTitle\<close> and of the first \<open>span\<close> of class \<open>a-price-whole\<close>, when present; or
  the parser raises.\<close>

datatype document = Unparsable | Soup "string option" "string option"

datatype response = RequestException | Reply int document

text \<open>One entry of the email for each product, and the message handed to SMTP.\<close>

record entry =
  e_title :: pyval
  e_current :: real
  e_target :: real
  e_savings :: real
  e_url :: pyval

record message =
  m_from :: pyval
  m_to :: pyval
  m_entries :: "entry list"

datatype smtp_fault = Connect_fault | Login_fault | Send_fault

text \<open>The environment: the answer of the network to the n-th request for a URL, the
  builtin \<open>float\<close> on strings (\<open>None\<close> for \<open>ValueError\<close>), the subtraction of
  two numbers as floating point arithmetic rounds it, and the fault, if any, of an SMTP
  session with the given sender, password and message.\<close>

record env =
  net :: "nat \<Rightarrow> pyval \<Rightarrow> response"
  to_float :: "string \<Rightarrow> real option"
  fsub :: "real \<Rightarrow> real \<Rightarrow> real"
  smtp :: "pyval \<Rightarrow> pyval \<Rightarrow> message \<Rightarrow> smtp_fault option"

text \<open>The tracker object, with the part of the world it acts on: the file and whether
  it can be opened for writing, the number of HTTP requests issued, the messages handed
  to SMTP and those delivered, and the console.\<close>

record tracker =
  email_sender :: pyval
  email_password :: pyval
  email_receiver :: pyval
  products :: "product list"
  products_file :: file_content
  writable :: bool
  requests :: nat
  outbox :: "message list"
  delivered :: "message list"
  console :: "msg list"

definition say :: "msg \<Rightarrow> tracker \<Rightarrow> tracker" where
  "say m s = s\<lparr>console := console s @ [m]\<rparr>"

subsection \<open>Persistence\<close>

definition load_products :: "tracker \<Rightarrow> tracker" where
  "load_products s =
     (case products_file s of
        Absent \<Rightarrow> s
      | Malformed \<Rightarrow> (say Error_loading s)\<lparr>products := []\<rparr>
      | Doc ds \<Rightarrow>
          (case from_dicts ds of
             Inl e \<Rightarrow> (say Error_loading s)\<lparr>products := []\<rparr>
           | Inr ps \<Rightarrow> s\<lparr>products := ps\<rparr>))"

definition save_products :: "tracker \<Rightarrow> tracker" where
  "save_products s =
     (if writable s then s\<lparr>products_file := Doc (map to_dict (products s))\<rparr>
      else say Error_saving s)"

subsection \<open>Adding and removing\<close>

definition add_product_with_data ::
  "real \<Rightarrow> pyval \<Rightarrow> pyval \<Rightarrow> pyval \<Rightarrow> pyval \<Rightarrow> tracker \<Rightarrow> tracker \<times> bool" where
  "add_product_with_data now u tp t cp s =
     (let p = (Product u tp PyNone PyNone)
                \<lparr>title := t, current_price := cp, last_checked := PyNum now\<rparr>
      in (save_products (s\<lparr>products := products s @ [p]\<rparr>), True))"

text \<open>\<open>list.pop(i)\<close> for an index in range.\<close>

definition pop :: "nat \<Rightarrow> 'a list \<Rightarrow> 'a list" where
  "pop i xs = take i xs @ drop (Suc i) xs"

definition remove_product :: "int \<Rightarrow> tracker \<Rightarrow> tracker \<times> bool" where
  "remove_product index s =
     (if 0 \<le> index \<and> index < int (length (products s))
      then (save_products (s\<lparr>products := pop (nat index) (products s)\<rparr>), True)
      else (s, False))"

subsection \<open>Fetching and parsing\<close>

text \<open>The politeness delays and the choice of the User-Agent header have no effect on
  the state modelled. Every exception inside the function is caught there.\<close>

definition get_product_price :: "env \<Rightarrow> pyval \<Rightarrow> tracker \<Rightarrow> tracker \<times> pyval \<times> pyval" where
  "get_product_price e u s =
     (let s1 = (say Fetching s)\<lparr>requests := requests s + 1\<rparr> in
      case net e (requests s) u of
        RequestException \<Rightarrow> (say Will_retry (say Network_error s1), PyNone, PyNone)
      | Reply code doc \<Rightarrow>
          let s2 = say (Response_status code) s1 in
          if code \<noteq> 200 then
            (let s3 = say (Failed_status code) s2 in
             ((if code = 503 then say Blocking s3 else s3), PyNone, PyNone))
          else
            (case doc of
               Unparsable \<Rightarrow> (say Error_getting s2, PyNone, PyNone)
             | Soup title_element price_element \<Rightarrow>
                 let (ttl, s3) =
                       (case title_element of
                          Some t \<Rightarrow> (PyStr (strip t), say (Found_title (strip t)) s2)
                        | None \<Rightarrow> (PyNone, say Title_not_found s2))
                 in
                 (case price_element of
                    Some pt \<Rightarrow>
                      let price_text = remove_char (CHR ''.'') (remove_char (CHR '','') (strip pt)) in
                      (case to_float e price_text of
                         Some price \<Rightarrow> (say (Found_price price) s3, PyNum price, ttl)
                       | None \<Rightarrow> (say (Error_converting price_text) s3, PyNone, PyNone))
                  | None \<Rightarrow> (say Anti_bot (say Price_not_found s3), PyNone, PyNone))))"

definition add_product :: "env \<Rightarrow> real \<Rightarrow> pyval \<Rightarrow> pyval \<Rightarrow> tracker \<Rightarrow> tracker \<times> bool" where
  "add_product e now u tp s =
     (case get_product_price e u s of
        (s1, price, ttl) \<Rightarrow>
          if truthy price \<and> truthy ttl then add_product_with_data now u tp ttl price s1
          else (s1, False))"

subsection \<open>Refreshing\<close>

text \<open>\<open>not force and product.last_checked and (current_time - product.last_checked) < 3600\<close>,
  evaluated left to right with short circuit.\<close>

definition skip_check :: "env \<Rightarrow> real \<Rightarrow> bool \<Rightarrow> product \<Rightarrow> pyerr + bool" where
  "skip_check e now force p =
     (if force then Inr False
      else if \<not> truthy (last_checked p) then Inr False
      else case py_sub (fsub e) (PyNum now) (last_checked p) of
             Inl err \<Rightarrow> Inl err
           | Inr d \<Rightarrow> py_lt d (PyNum 3600))"

text \<open>The values of \<open>last_checked\<close> on which the subtraction above is the one of the
  code: \<open>None\<close>, or a number within the range of \<open>float\<close>.\<close>

definition timestamp_ok :: "pyval \<Rightarrow> bool" where
  "timestamp_ok v = (case v of PyNone \<Rightarrow> True | PyNum t \<Rightarrow> \<bar>t\<bar> \<le> 2 ^ 1023 | PyStr x \<Rightarrow> False)"

text \<open>The body of the loop of \<open>update_prices\<close> for one product: the product as it is
  after the iteration, and what the iteration appends to \<open>updated_products\<close>.\<close>

definition refresh_product ::
  "env \<Rightarrow> real \<Rightarrow> bool \<Rightarrow> product \<Rightarrow> tracker \<Rightarrow> tracker \<times> (pyerr + product \<times> product list)" where
  "refresh_product e now force p s =
     (case skip_check e now force p of
        Inl err \<Rightarrow> (s, Inl err)
      | Inr True \<Rightarrow> (s, Inr (p, []))
      | Inr False \<Rightarrow>
          (case get_product_price e (url p) s of
             (s1, price, ttl) \<Rightarrow>
               if truthy price \<and> truthy ttl then
                 (let p' = p\<lparr>current_price := price, title := ttl, last_checked := PyNum now\<rparr>
                  in (s1, Inr (p', [p'])))
               else (s1, Inr (p, []))))"

text \<open>The loop over \<open>self.products\<close>. An exception leaves the products already updated as
  they are and the rest untouched.\<close>

fun update_loop ::
  "env \<Rightarrow> real \<Rightarrow> bool \<Rightarrow> product list \<Rightarrow> tracker
     \<Rightarrow> tracker \<times> product list \<times> product list \<times> pyerr option" where
  "update_loop e now force [] s = (s, [], [], None)"
| "update_loop e now force (p # ps) s =
     (case refresh_product e now force p s of
        (s1, Inl err) \<Rightarrow> (s1, p # ps, [], Some err)
      | (s1, Inr (p', u)) \<Rightarrow>
          (case update_loop e now force ps s1 of
             (s2, ps', upd, r) \<Rightarrow> (s2, p' # ps', u @ upd, r)))"

definition update_prices ::
  "env \<Rightarrow> real \<Rightarrow> bool \<Rightarrow> tracker \<Rightarrow> tracker \<times> (pyerr + product list)" where
  "update_prices e now force s =
     (case update_loop e now force (products s) s of
        (s1, ps', upd, Some err) \<Rightarrow> (s1\<lparr>products := ps'\<rparr>, Inl err)
      | (s1, ps', upd, None) \<Rightarrow>
          (let s2 = s1\<lparr>products := ps'\<rparr> in
           ((if upd \<noteq> [] then save_products s2 else s2), Inr upd)))"

subsection \<open>Notifying\<close>

definition compose_entry :: "env \<Rightarrow> product \<Rightarrow> pyerr + entry" where
  "compose_entry e p =
     (case py_sub (fsub e) (target_price p) (current_price p) of Inl err \<Rightarrow> Inl err | Inr savings \<Rightarrow>
      case format_2f (current_price p) of Inl err \<Rightarrow> Inl err | Inr c \<Rightarrow>
      case format_2f (target_price p) of Inl err \<Rightarrow> Inl err | Inr t \<Rightarrow>
      case format_2f savings of Inl err \<Rightarrow> Inl err | Inr sv \<Rightarrow>
      Inr \<lparr>e_title = title p, e_current = c, e_target = t, e_savings = sv, e_url = url p\<rparr>)"

fun compose_entries :: "env \<Rightarrow> product list \<Rightarrow> pyerr + entry list" where
  "compose_entries e [] = Inr []"
| "compose_entries e (p # ps) =
     (case compose_entry e p of Inl err \<Rightarrow> Inl err | Inr x \<Rightarrow>
      case compose_entries e ps of Inl err \<Rightarrow> Inl err | Inr xs \<Rightarrow> Inr (x # xs))"

text \<open>The HTML part and the plain text part list the same entries. Everything after the
  first test is inside \<open>try\<close>, and \<open>except Exception\<close> logs whatever is raised.\<close>

definition send_email :: "env \<Rightarrow> product list \<Rightarrow> tracker \<Rightarrow> tracker" where
  "send_email e ps s =
     (if ps = [] then s
      else case compose_entries e ps of
             Inl err \<Rightarrow> say Failed_to_send s
           | Inr xs \<Rightarrow>
               (let m = \<lparr>m_from = email_sender s, m_to = email_receiver s, m_entries = xs\<rparr>;
                    s1 = s\<lparr>outbox := outbox s @ [m]\<rparr>
                in case smtp e (email_sender s) (email_password s) m of
                     Some fault \<Rightarrow> say Failed_to_send s1
                   | None \<Rightarrow> say Notification_sent (s1\<lparr>delivered := delivered s1 @ [m]\<rparr>)))"

subsection \<open>Checking\<close>

text \<open>The loop of \<open>check_prices\<close> that collects \<open>price_drops\<close>. The second comparison of
  an iteration compares the same two values as the first.\<close>

fun drops_loop :: "product list \<Rightarrow> tracker \<Rightarrow> tracker \<times> (pyerr + product list)" where
  "drops_loop [] s = (s, Inr [])"
| "drops_loop (p # ps) s =
     (case py_le (current_price p) (target_price p) of
        Inl err \<Rightarrow> (s, Inl err)
      | Inr b \<Rightarrow>
          (let s1 = say (Product_line (title p)) s;
               s2 = (if b then say (Below_target (current_price p)) s1
                     else say (Current_line (current_price p)) s1)
           in case drops_loop ps s2 of
                (s3, Inl err) \<Rightarrow> (s3, Inl err)
              | (s3, Inr ds) \<Rightarrow> (s3, Inr ((if b then [p] else []) @ ds))))"

definition check_prices :: "env \<Rightarrow> real \<Rightarrow> bool \<Rightarrow> tracker \<Rightarrow> tracker \<times> (pyerr + unit)" where
  "check_prices e now force_update s =
     (if \<not> truthy (email_receiver s) then (say Receiver_not_set s, Inr ())
      else case update_prices e now force_update s of
             (s1, Inl err) \<Rightarrow> (s1, Inl err)
           | (s1, Inr updated) \<Rightarrow>
               (let s2 = (if updated \<noteq> [] then say (Updated_count (length updated)) s1 else s1)
                in case drops_loop (products s2) s2 of
                     (s3, Inl err) \<Rightarrow> (s3, Inl err)
                   | (s3, Inr price_drops) \<Rightarrow>
                       ((if price_drops \<noteq> [] then send_email e price_drops s3 else s3), Inr ())))"

section \<open>Example stores\<close>

definition p_book :: product where
  "p_book = \<lparr>url = PyStr ''u1'', target_price = PyNum 50, title = PyStr ''Book'',
              current_price = PyNum 60, last_checked = PyNum 1000\<rparr>"

definition p_lamp :: product where
  "p_lamp = \<lparr>url = PyStr ''u2'', target_price = PyNum 30, title = PyStr ''Lamp'',
              current_price = PyNum 25, last_checked = PyNum 1000\<rparr>"

text \<open>A product as a file with null members yields it.\<close>

definition p_new :: product where
  "p_new = \<lparr>url = PyStr ''u3'', target_price = PyNum 10, title = PyNone,
             current_price = PyNone, last_checked = PyNone\<rparr>"

definition store_of :: "product list \<Rightarrow> tracker" where
  "store_of ps =
     \<lparr>email_sender = PyStr ''sender'', email_password = PyStr ''secret'',
      email_receiver = PyStr ''receiver'', products = ps,
      products_file = Doc (map to_dict ps), writable = True, requests = 0,
      outbox = [], delivered = [], console = []\<rparr>"

definition store3 :: tracker where
  "store3 = store_of [p_book, p_lamp, p_new]"

text \<open>The builtin \<open>float\<close> on the strings the examples use: a string of decimal digits
  denotes its number, and the other strings used there are rejected.\<close>

definition is_digit :: "char \<Rightarrow> bool" where
  "is_digit c = (48 \<le> (of_char c :: nat) \<and> (of_char c :: nat) \<le> 57)"

definition float_digits :: "string \<Rightarrow> real option" where
  "float_digits t =
     (if t \<noteq> [] \<and> list_all is_digit t
      then Some (real (foldl (\<lambda>n c. 10 * n + (of_char c - 48)) 0 t))
      else None)"

text \<open>The examples subtract small whole numbers, whose difference floating point
  arithmetic gives exactly. Networks: one that is down, one that serves the same page to every request, and
  one that fails the first request and serves the page from then on.\<close>

definition net_down :: "nat \<Rightarrow> pyval \<Rightarrow> response" where
  "net_down n u = RequestException"

definition net_page :: "string option \<Rightarrow> string option \<Rightarrow> nat \<Rightarrow> pyval \<Rightarrow> response" where
  "net_page t p n u = Reply 200 (Soup t p)"

definition net_flaky :: "string option \<Rightarrow> string option \<Rightarrow> nat \<Rightarrow> pyval \<Rightarrow> response" where
  "net_flaky t p n u = (if n = 0 then RequestException else Reply 200 (Soup t p))"

definition env_of :: "(nat \<Rightarrow> pyval \<Rightarrow> response) \<Rightarrow> smtp_fault option \<Rightarrow> env" where
  "env_of nw fault =
     \<lparr>net = nw, to_float = float_digits, fsub = (\<lambda>a b. a - b),
      smtp = (\<lambda>sender password m. fault)\<rparr>"

text \<open>A store of three products that has not been saved yet.\<close>

definition store_unsaved :: tracker where
  "store_unsaved = (store_of [p_book, p_lamp, p_new])\<lparr>products_file := Absent\<rparr>"

definition store_no_receiver :: tracker where
  "store_no_receiver = (store_of [p_lamp])\<lparr>email_receiver := PyNone\<rparr>"

text \<open>A store loaded from a file with null members, an environment whose page shows the
  lamp at 25 and whose SMTP connection fails, and the lamp as refreshed at time 5000.\<close>

definition store_loaded :: tracker where
  "store_loaded = load_products (store_of [p_new])"

definition env_smtp_down :: env where
  "env_smtp_down = env_of (net_page (Some ''Lamp'') (Some ''25'')) (Some Connect_fault)"

definition p_lamp_fresh :: product where
  "p_lamp_fresh = p_lamp\<lparr>last_checked := PyNum 5000\<rparr>"

text \<open>An environment whose first request fails and whose later ones show the book at
  45, one that always shows it, and the products as those fetches leave them.\<close>

definition env_flaky :: env where
  "env_flaky = env_of (net_flaky (Some ''Book'') (Some ''45'')) None"

definition env_page :: env where
  "env_page = env_of (net_page (Some ''Book'') (Some ''45'')) None"

definition p_book_fresh :: product where
  "p_book_fresh = p_book\<lparr>current_price := PyNum 45, last_checked := PyNum 5000\<rparr>"

definition p_new_fetched :: product where
  "p_new_fetched = p_new\<lparr>current_price := PyNum 45, title := PyStr ''Book'',
                          last_checked := PyNum 5010\<rparr>"

definition p_lamp_recent :: product where
  "p_lamp_recent = p_lamp\<lparr>last_checked := PyNum 4000\<rparr>"


section \<open>Projections of the state\<close>

lemma console_say [simp]: "console (say m s) = console s @ [m]"
  by (simp add: say_def)

lemma products_say [simp]: "products (say m s) = products s"
  by (simp add: say_def)

lemma file_say [simp]: "products_file (say m s) = products_file s"
  by (simp add: say_def)

lemma requests_say [simp]: "requests (say m s) = requests s"
  by (simp add: say_def)

lemma outbox_say [simp]: "outbox (say m s) = outbox s"
  by (simp add: say_def)

lemma delivered_say [simp]: "delivered (say m s) = delivered s"
  by (simp add: say_def)

lemma writable_say [simp]: "writable (say m s) = writable s"
  by (simp add: say_def)

lemma receiver_say [simp]: "email_receiver (say m s) = email_receiver s"
  by (simp add: say_def)

lemma products_save [simp]: "products (save_products s) = products s"
  by (simp add: save_products_def)

lemma requests_save [simp]: "requests (save_products s) = requests s"
  by (simp add: save_products_def)

lemma outbox_save [simp]: "outbox (save_products s) = outbox s"
  by (simp add: save_products_def)

lemma delivered_save [simp]: "delivered (save_products s) = delivered s"
  by (simp add: save_products_def)

lemma length_pop: "i < length xs \<Longrightarrow> length (pop i xs) = length xs - 1"
  by (simp add: pop_def)

section \<open>Removing a product\<close>

text \<open>
  C6. \<open>remove_product(index)\<close> on a store of length n: when \<open>0 <= index < n\<close> it returns
  success, the product at the index is gone (the others keep their order), and the new
  list is saved (when the file can be written it holds the new list); for every other
  index, negative ones included, it returns failure and the whole state is unchanged.
\<close>

theorem remove_product_spec:
  "(0 \<le> index \<and> index < int (length (products s)) \<longrightarrow>
      snd (remove_product index s) = True
      \<and> products (fst (remove_product index s))
          = take (nat index) (products s) @ drop (nat index + 1) (products s)
      \<and> length (products (fst (remove_product index s))) = length (products s) - 1
      \<and> (writable s \<longrightarrow>
           products_file (fst (remove_product index s))
             = Doc (map to_dict (products (fst (remove_product index s))))))
   \<and> (\<not> (0 \<le> index \<and> index < int (length (products s))) \<longrightarrow>
        remove_product index s = (s, False))"
  by (auto simp: remove_product_def pop_def save_products_def)

theorem remove_product_spec_witness:
  "(0::int) \<le> 1 \<and> 1 < int (length (products store3))
   \<and> snd (remove_product 1 store3) = True
   \<and> products (fst (remove_product 1 store3)) = [p_book, p_new]
   \<and> products_file (fst (remove_product 1 store3)) = Doc [to_dict p_book, to_dict p_new]
   \<and> \<not> (0 \<le> (5::int) \<and> 5 < int (length (products store3)))
   \<and> remove_product 5 store3 = (store3, False)
   \<and> remove_product (- 1) store3 = (store3, False)"
  using remove_product_spec [of 1 store3] remove_product_spec [of 5 store3]
    remove_product_spec [of "- 1" store3]
  by (simp add: store3_def store_of_def)

section \<open>Saving and loading\<close>

lemma from_dict_to_dict: "from_dict (to_dict p) = Inr p"
  by (simp add: from_dict_def to_dict_def getitem_def Product_def)

lemma from_dicts_to_dict: "from_dicts (map to_dict ps) = Inr ps"
  by (induction ps) (simp_all add: from_dict_to_dict)

text \<open>
  C3. For every list of products, whatever is null in them, \<open>save_products\<close> writes the
  list to the file, and \<open>load_products\<close>, run in any state whose file is the one written
  (the same tracker with its list in memory replaced meanwhile, or another one), rebuilds
  the list that was saved: the same length and, at every index, the same url,
  target_price, title, current_price and last_checked. The write is one that succeeds; a
  write that fails is logged and leaves the file as it was.
\<close>

theorem save_load_roundtrip:
  "writable s \<Longrightarrow> products_file s' = products_file (save_products s) \<Longrightarrow>
     products_file (save_products s) = Doc (map to_dict (products s))
     \<and> products (load_products s') = products s
     \<and> length (products (load_products s')) = length (products s)
     \<and> (\<forall>i < length (products s).
          url (products (load_products s') ! i) = url (products s ! i)
          \<and> target_price (products (load_products s') ! i) = target_price (products s ! i)
          \<and> title (products (load_products s') ! i) = title (products s ! i)
          \<and> current_price (products (load_products s') ! i) = current_price (products s ! i)
          \<and> last_checked (products (load_products s') ! i) = last_checked (products s ! i))"
  by (simp add: load_products_def save_products_def from_dicts_to_dict)

theorem save_load_roundtrip_witness:
  "writable store_unsaved \<and> products_file store_unsaved = Absent
   \<and> products_file (save_products store_unsaved)
       = Doc [to_dict p_book, to_dict p_lamp, to_dict p_new]
   \<and> products ((save_products store_unsaved)\<lparr>products := []\<rparr>) = []
   \<and> products_file ((save_products store_unsaved)\<lparr>products := []\<rparr>)
       = products_file (save_products store_unsaved)
   \<and> products (load_products ((save_products store_unsaved)\<lparr>products := []\<rparr>))
       = [p_book, p_lamp, p_new]
   \<and> title (products (load_products ((save_products store_unsaved)\<lparr>products := []\<rparr>)) ! 2)
       = PyNone
   \<and> current_price (products (load_products ((save_products store_unsaved)\<lparr>products := []\<rparr>)) ! 2)
       = PyNone
   \<and> last_checked (products (load_products ((save_products store_unsaved)\<lparr>products := []\<rparr>)) ! 2)
       = PyNone"
proof -
  have w: "writable store_unsaved"
    by (simp add: store_unsaved_def store_of_def)
  have f: "products_file ((save_products store_unsaved)\<lparr>products := []\<rparr>)
       = products_file (save_products store_unsaved)"
    by simp
  have ps: "products store_unsaved = [p_book, p_lamp, p_new]"
    and a: "products_file store_unsaved = Absent"
    by (simp_all add: store_unsaved_def store_of_def)
  show ?thesis
    using save_load_roundtrip [OF w f] w a ps
    by (simp add: p_new_def)
qed

section \<open>Checking without a receiver\<close>

text \<open>
  C8. When no receiver address is set (\<open>None\<close> or the empty string),
  \<open>check_prices\<close> reports the configuration error and returns: no request is issued,
  the products and the file are as they were, and nothing is handed to SMTP.
\<close>

theorem check_prices_without_receiver:
  "\<not> truthy (email_receiver s) \<Longrightarrow>
     snd (check_prices e now force_update s) = Inr ()
     \<and> fst (check_prices e now force_update s) = s\<lparr>console := console s @ [Receiver_not_set]\<rparr>
     \<and> products (fst (check_prices e now force_update s)) = products s
     \<and> products_file (fst (check_prices e now force_update s)) = products_file s
     \<and> requests (fst (check_prices e now force_update s)) = requests s
     \<and> outbox (fst (check_prices e now force_update s)) = outbox s
     \<and> delivered (fst (check_prices e now force_update s)) = delivered s"
  by (simp add: check_prices_def say_def)

theorem check_prices_without_receiver_witness:
  "\<not> truthy (email_receiver store_no_receiver)
   \<and> snd (check_prices (env_of net_down None) 5000 True store_no_receiver) = Inr ()
   \<and> console (fst (check_prices (env_of net_down None) 5000 True store_no_receiver))
       = [Receiver_not_set]
   \<and> products (fst (check_prices (env_of net_down None) 5000 True store_no_receiver)) = [p_lamp]
   \<and> requests (fst (check_prices (env_of net_down None) 5000 True store_no_receiver)) = 0
   \<and> outbox (fst (check_prices (env_of net_down None) 5000 True store_no_receiver)) = []"
  using check_prices_without_receiver [of store_no_receiver "env_of net_down None" 5000 True]
  by (simp add: store_no_receiver_def store_of_def)

section \<open>What each operation leaves alone\<close>

lemma get_product_price_frame:
  "get_product_price e u s = (s1, price, ttl) \<Longrightarrow>
     products s1 = products s \<and> products_file s1 = products_file s \<and> writable s1 = writable s
     \<and> outbox s1 = outbox s \<and> delivered s1 = delivered s
     \<and> email_receiver s1 = email_receiver s \<and> email_sender s1 = email_sender s
     \<and> email_password s1 = email_password s \<and> requests s1 = requests s + 1"
  by (auto simp: get_product_price_def say_def Let_def
           split: response.splits document.splits option.splits if_splits)

lemma skip_check_error: "skip_check e now force p = Inl err \<Longrightarrow> err = TypeError"
  by (cases "last_checked p") (auto simp: skip_check_def split: if_splits)

lemma py_le_error: "py_le a b = Inl err \<Longrightarrow> err = TypeError"
  by (cases a; cases b) auto

lemma refresh_product_frame:
  "refresh_product e now force p s = (s1, r) \<Longrightarrow>
     products s1 = products s \<and> products_file s1 = products_file s \<and> writable s1 = writable s
     \<and> outbox s1 = outbox s \<and> delivered s1 = delivered s
     \<and> email_receiver s1 = email_receiver s \<and> email_sender s1 = email_sender s
     \<and> email_password s1 = email_password s \<and> requests s \<le> requests s1"
  unfolding refresh_product_def
  by (auto simp: Let_def split: sum.splits bool.splits prod.splits if_splits dest!: get_product_price_frame)

lemma refresh_product_error:
  "refresh_product e now force p s = (s1, Inl err) \<Longrightarrow> err = TypeError"
  unfolding refresh_product_def
  by (auto simp: Let_def split: sum.splits bool.splits prod.splits if_splits dest: skip_check_error)

lemma update_loop_frame:
  "update_loop e now force ps s = (s1, ps', upd, r) \<Longrightarrow>
     products s1 = products s \<and> products_file s1 = products_file s \<and> writable s1 = writable s
     \<and> outbox s1 = outbox s \<and> delivered s1 = delivered s
     \<and> email_receiver s1 = email_receiver s \<and> email_sender s1 = email_sender s
     \<and> email_password s1 = email_password s \<and> requests s \<le> requests s1
     \<and> length ps' = length ps \<and> (\<forall>err. r = Some err \<longrightarrow> err = TypeError)"
proof (induction ps arbitrary: s s1 ps' upd r)
  case Nil
  then show ?case by simp
next
  case (Cons p ps)
  obtain sa ra where step: "refresh_product e now force p s = (sa, ra)"
    by (cases "refresh_product e now force p s")
  note fr = refresh_product_frame [OF step]
  show ?case
  proof (cases ra)
    case (Inl err)
    with Cons.prems step fr refresh_product_error [of e now force p s sa err]
    show ?thesis by auto
  next
    case (Inr pu)
    obtain p' u where pu: "pu = (p', u)" by (cases pu)
    obtain sb psb updb rb where rest: "update_loop e now force ps sa = (sb, psb, updb, rb)"
      by (cases "update_loop e now force ps sa") auto
    note ih = Cons.IH [OF rest]
    from Cons.prems step Inr pu rest
    have "s1 = sb" "ps' = p' # psb" "r = rb" by auto
    with ih fr show ?thesis by auto
  qed
qed

lemma update_prices_frame:
  "outbox (fst (update_prices e now force s)) = outbox s
   \<and> delivered (fst (update_prices e now force s)) = delivered s
   \<and> email_receiver (fst (update_prices e now force s)) = email_receiver s
   \<and> email_sender (fst (update_prices e now force s)) = email_sender s
   \<and> email_password (fst (update_prices e now force s)) = email_password s
   \<and> length (products (fst (update_prices e now force s))) = length (products s)"
proof -
  obtain s1 ps' upd r where l: "update_loop e now force (products s) s = (s1, ps', upd, r)"
    by (cases "update_loop e now force (products s) s") auto
  note fr = update_loop_frame [OF l]
  show ?thesis using l fr
    by (cases r) (auto simp: update_prices_def save_products_def say_def Let_def)
qed

lemma update_prices_error:
  "snd (update_prices e now force s) = Inl err \<Longrightarrow> err = TypeError"
proof -
  assume a: "snd (update_prices e now force s) = Inl err"
  obtain s1 ps' upd r where l: "update_loop e now force (products s) s = (s1, ps', upd, r)"
    by (cases "update_loop e now force (products s) s") auto
  note fr = update_loop_frame [OF l]
  show ?thesis using a l fr
    by (cases r) (auto simp: update_prices_def Let_def)
qed

lemma drops_loop_frame:
  "drops_loop ps s = (s1, r) \<Longrightarrow>
     products s1 = products s \<and> products_file s1 = products_file s \<and> writable s1 = writable s
     \<and> outbox s1 = outbox s \<and> delivered s1 = delivered s \<and> requests s1 = requests s
     \<and> email_receiver s1 = email_receiver s \<and> email_sender s1 = email_sender s
     \<and> email_password s1 = email_password s"
proof (induction ps arbitrary: s s1 r)
  case Nil
  then show ?case by simp
next
  case (Cons p ps)
  show ?case
  proof (cases "py_le (current_price p) (target_price p)")
    case (Inl err)
    with Cons.prems show ?thesis by simp
  next
    case (Inr b)
    let ?s2 = "if b then say (Below_target (current_price p)) (say (Product_line (title p)) s)
               else say (Current_line (current_price p)) (say (Product_line (title p)) s)"
    obtain sb rb where rest: "drops_loop ps ?s2 = (sb, rb)"
      by (cases "drops_loop ps ?s2")
    from Cons.prems Inr rest have "s1 = sb"
      by (cases rb) (auto simp: Let_def split: if_splits)
    with Cons.IH [OF rest] show ?thesis by (auto simp: say_def split: if_splits)
  qed
qed

lemma drops_loop_filter:
  "\<forall>p\<in>set ps. \<exists>b. py_le (current_price p) (target_price p) = Inr b \<Longrightarrow>
     snd (drops_loop ps s)
       = Inr (filter (\<lambda>p. py_le (current_price p) (target_price p) = Inr True) ps)"
proof (induction ps arbitrary: s)
  case Nil
  then show ?case by simp
next
  case (Cons p ps)
  then obtain b where b: "py_le (current_price p) (target_price p) = Inr b" by auto
  let ?s2 = "if b then say (Below_target (current_price p)) (say (Product_line (title p)) s)
             else say (Current_line (current_price p)) (say (Product_line (title p)) s)"
  from Cons have ih: "snd (drops_loop ps ?s2)
       = Inr (filter (\<lambda>p. py_le (current_price p) (target_price p) = Inr True) ps)"
    by simp
  obtain sb rb where rest: "drops_loop ps ?s2 = (sb, rb)"
    by (cases "drops_loop ps ?s2")
  with ih have "rb = Inr (filter (\<lambda>p. py_le (current_price p) (target_price p) = Inr True) ps)"
    by simp
  with b rest show ?case by (cases b) (auto simp: Let_def)
qed

lemma drops_loop_raises:
  "p \<in> set ps \<Longrightarrow> py_le (current_price p) (target_price p) = Inl err \<Longrightarrow>
     snd (drops_loop ps s) = Inl TypeError"
proof (induction ps arbitrary: s)
  case Nil
  then show ?case by simp
next
  case (Cons q ps)
  show ?case
  proof (cases "py_le (current_price q) (target_price q)")
    case (Inl err')
    with py_le_error [OF Inl] show ?thesis by simp
  next
    case (Inr b)
    with Cons.prems have mem: "p \<in> set ps" by auto
    let ?s2 = "if b then say (Below_target (current_price q)) (say (Product_line (title q)) s)
               else say (Current_line (current_price q)) (say (Product_line (title q)) s)"
    have ih: "snd (drops_loop ps ?s2) = Inl TypeError"
      using Cons.IH [OF mem Cons.prems(2)] .
    obtain sb rb where rest: "drops_loop ps ?s2 = (sb, rb)"
      by (cases "drops_loop ps ?s2")
    with ih have "rb = Inl TypeError" by simp
    with Inr rest show ?thesis by (cases b) (auto simp: Let_def)
  qed
qed

lemma send_email_frame:
  "products (send_email e ps s) = products s
   \<and> products_file (send_email e ps s) = products_file s
   \<and> requests (send_email e ps s) = requests s"
  by (auto simp: send_email_def say_def Let_def split: sum.splits option.splits)

section \<open>What the parser returns\<close>

text \<open>
  C5. For a page served with status 200 and parsed, \<open>get_product_price\<close>
  returns the price together with the title as found: a page with a price and no title
  element yields the price with an absent title. When the price element is absent or
  its text fails the conversion, both results are absent, whether or not the title was
  found.
\<close>

theorem get_product_price_result:
  "net e (requests s) u = Reply 200 (Soup title_element price_element) \<Longrightarrow>
     snd (get_product_price e u s) =
       (case price_element of
          None \<Rightarrow> (PyNone, PyNone)
        | Some pt \<Rightarrow>
            (case to_float e (remove_char (CHR ''.'') (remove_char (CHR '','') (strip pt))) of
               None \<Rightarrow> (PyNone, PyNone)
             | Some price \<Rightarrow>
                 (PyNum price,
                  (case title_element of None \<Rightarrow> PyNone | Some t \<Rightarrow> PyStr (strip t)))))"
  by (simp add: get_product_price_def Let_def split: option.splits)

theorem get_product_price_result_witness:
  "net (env_of (net_page None (Some ''1,299.'')) None) (requests (store_of [])) (PyStr ''u1'')
     = Reply 200 (Soup None (Some ''1,299.''))
   \<and> snd (get_product_price (env_of (net_page None (Some ''1,299.'')) None) (PyStr ''u1'')
         (store_of [])) = (PyNum 1299, PyNone)
   \<and> snd (get_product_price (env_of (net_page (Some ''Book'') (Some ''n/a'')) None) (PyStr ''u1'')
         (store_of [])) = (PyNone, PyNone)"
  using get_product_price_result [of "env_of (net_page None (Some ''1,299.'')) None" "store_of []"
      "PyStr ''u1''" None "Some ''1,299.''"]
    get_product_price_result [of "env_of (net_page (Some ''Book'') (Some ''n/a'')) None" "store_of []"
      "PyStr ''u1''" "Some ''Book''" "Some ''n/a''"]
  by (simp add: env_of_def net_page_def store_of_def strip_def py_isspace_def remove_char_def
        float_digits_def is_digit_def)

text \<open>A page with the title \<open>Book\<close> and no price element: the title found is dropped.\<close>

theorem title_without_price_counterexample:
  "snd (get_product_price (env_of (net_page (Some ''Book'') None) None) (PyStr ''u1'') (store_of []))
     = (PyNone, PyNone)
   \<and> snd (get_product_price (env_of (net_page (Some ''Book'') None) None) (PyStr ''u1'') (store_of []))
     \<noteq> (PyNone, PyStr ''Book'')"
  by (simp add: get_product_price_def env_of_def net_page_def store_of_def say_def)

section \<open>Falsy results count as failure\<close>

text \<open>
  C10. A fetch whose price is 0, or whose title is the empty string, fails the test
  \<open>if price and title\<close>: \<open>add_product\<close> returns failure and adds nothing; the loop body
  of \<open>update_prices\<close> leaves the product as it was and appends nothing to the updated
  list, so that a store tracking this one product comes back unchanged, unsaved, with an
  empty updated list.
\<close>

theorem falsy_fetch_is_failure:
  "snd (get_product_price e u s) = (price, ttl) \<Longrightarrow> price = PyNum 0 \<or> ttl = PyStr [] \<Longrightarrow>
     add_product e now u tp s = (fst (get_product_price e u s), False)
     \<and> products (fst (add_product e now u tp s)) = products s
     \<and> (url p = u \<and> skip_check e now force p = Inr False \<longrightarrow>
          refresh_product e now force p s = (fst (get_product_price e u s), Inr (p, [])))
     \<and> (url p = u \<and> skip_check e now force p = Inr False \<and> products s = [p] \<longrightarrow>
          update_prices e now force s = (fst (get_product_price e u s), Inr []))"
proof -
  assume g': "snd (get_product_price e u s) = (price, ttl)"
    and f: "price = PyNum 0 \<or> ttl = PyStr []"
  define s1 where "s1 = fst (get_product_price e u s)"
  from g' have g: "get_product_price e u s = (s1, price, ttl)"
    by (simp add: s1_def prod_eq_iff)
  from f have nt: "\<not> (truthy price \<and> truthy ttl)" by auto
  have fr: "products s1 = products s" using get_product_price_frame [OF g] by simp
  have a: "add_product e now u tp s = (s1, False)"
    using g nt by (auto simp: add_product_def)
  have r: "url p = u \<and> skip_check e now force p = Inr False \<longrightarrow>
          refresh_product e now force p s = (s1, Inr (p, []))"
    using g nt by (auto simp: refresh_product_def)
  have w: "url p = u \<and> skip_check e now force p = Inr False \<and> products s = [p] \<longrightarrow>
          update_prices e now force s = (s1, Inr [])"
    using r fr by (auto simp: update_prices_def)
  show ?thesis using a fr r w unfolding s1_def by simp
qed

theorem falsy_fetch_is_failure_witness:
  "snd (get_product_price (env_of (net_page (Some ''Book'') (Some ''0'')) None) (PyStr ''u3'')
        (store_of [p_new])) = (PyNum 0, PyStr ''Book'')
   \<and> snd (add_product (env_of (net_page (Some ''Book'') (Some ''0'')) None) 5000 (PyStr ''u3'')
            (PyNum 10) (store_of [p_new])) = False
   \<and> url p_new = PyStr ''u3''
   \<and> skip_check (env_of (net_page (Some ''Book'') (Some ''0'')) None) 5000 False p_new = Inr False
   \<and> snd (update_prices (env_of (net_page (Some ''Book'') (Some ''0'')) None) 5000 False
            (store_of [p_new])) = Inr []
   \<and> products (fst (update_prices (env_of (net_page (Some ''Book'') (Some ''0'')) None) 5000 False
            (store_of [p_new]))) = [p_new]
   \<and> snd (get_product_price (env_of (net_page (Some ''  '') (Some ''12'')) None) (PyStr ''u3'')
        (store_of [p_new])) = (PyNum 12, PyStr [])
   \<and> snd (update_prices (env_of (net_page (Some ''  '') (Some ''12'')) None) 5000 False
            (store_of [p_new])) = Inr []"
proof -
  have g0: "snd (get_product_price (env_of (net_page (Some ''Book'') (Some ''0'')) None)
        (PyStr ''u3'') (store_of [p_new])) = (PyNum 0, PyStr ''Book'')"
    by (simp add: get_product_price_def env_of_def net_page_def store_of_def strip_def
          py_isspace_def remove_char_def float_digits_def is_digit_def say_def)
  have g1: "snd (get_product_price (env_of (net_page (Some ''  '') (Some ''12'')) None)
        (PyStr ''u3'') (store_of [p_new])) = (PyNum 12, PyStr [])"
    by (simp add: get_product_price_def env_of_def net_page_def store_of_def strip_def
          py_isspace_def remove_char_def float_digits_def is_digit_def say_def)
  have u: "url p_new = PyStr ''u3''"
    and ps: "products (store_of [p_new]) = [p_new]"
    by (simp_all add: p_new_def store_of_def)
  have k: "skip_check en 5000 False p_new = Inr False" for en
    by (simp add: p_new_def skip_check_def)
  have fr: "products (fst (get_product_price en (PyStr ''u3'') (store_of [p_new]))) = [p_new]"
    for en
    using get_product_price_frame [of en "PyStr ''u3''" "store_of [p_new]"] ps
    by (cases "get_product_price en (PyStr ''u3'') (store_of [p_new])") simp
  show ?thesis
    using falsy_fetch_is_failure [OF g0, of 5000 "PyNum 10" p_new False]
      falsy_fetch_is_failure [OF g1, of 5000 "PyNum 10" p_new False]
      g0 g1 u k ps fr
    by simp
qed

section \<open>Price drops\<close>

lemma price_drops_aux:
  "truthy (email_receiver s) \<Longrightarrow> snd (update_prices e now force_update s) = Inr updated \<Longrightarrow>
   \<forall>p \<in> set (products (fst (update_prices e now force_update s))).
      \<exists>b. py_le (current_price p) (target_price p) = Inr b \<Longrightarrow>
   s2 = (if updated \<noteq> [] then say (Updated_count (length updated))
           (fst (update_prices e now force_update s))
         else fst (update_prices e now force_update s)) \<Longrightarrow>
   drops = filter (\<lambda>p. py_le (current_price p) (target_price p) = Inr True)
             (products (fst (update_prices e now force_update s))) \<Longrightarrow>
     snd (drops_loop (products s2) s2) = Inr drops
     \<and> (\<forall>p \<in> set (products (fst (update_prices e now force_update s))). \<forall>c t.
           current_price p = PyNum c \<and> target_price p = PyNum t \<longrightarrow>
             (p \<in> set drops \<longleftrightarrow> c \<le> t))
     \<and> check_prices e now force_update s
         = ((if drops \<noteq> [] then send_email e drops (fst (drops_loop (products s2) s2))
             else fst (drops_loop (products s2) s2)), Inr ())"
proof -
  assume rc: "truthy (email_receiver s)"
    and up: "snd (update_prices e now force_update s) = Inr updated"
    and cmp: "\<forall>p \<in> set (products (fst (update_prices e now force_update s))).
      \<exists>b. py_le (current_price p) (target_price p) = Inr b"
    and s2: "s2 = (if updated \<noteq> [] then say (Updated_count (length updated))
           (fst (update_prices e now force_update s))
         else fst (update_prices e now force_update s))"
    and dr: "drops = filter (\<lambda>p. py_le (current_price p) (target_price p) = Inr True)
             (products (fst (update_prices e now force_update s)))"
  define s1 where "s1 = fst (update_prices e now force_update s)"
  have u: "update_prices e now force_update s = (s1, Inr updated)"
    using up by (simp add: s1_def prod_eq_iff)
  have ps2: "products s2 = products s1" using s2 by (simp add: s1_def)
  have d: "snd (drops_loop (products s2) s2) = Inr drops"
    using drops_loop_filter [of "products s1" s2] cmp ps2 dr by (simp add: s1_def)
  obtain s3 where l: "drops_loop (products s2) s2 = (s3, Inr drops)"
    using d by (cases "drops_loop (products s2) s2") simp
  have m: "\<forall>p \<in> set (products s1). \<forall>c t.
           current_price p = PyNum c \<and> target_price p = PyNum t \<longrightarrow>
             (p \<in> set drops \<longleftrightarrow> c \<le> t)"
    using dr by (auto simp: s1_def)
  have c: "check_prices e now force_update s
         = ((if drops \<noteq> [] then send_email e drops s3 else s3), Inr ())"
  proof -
    have s2': "s2 = (if updated \<noteq> [] then say (Updated_count (length updated)) s1 else s1)"
      using s2 by (simp add: s1_def)
    show ?thesis
      using rc u l [unfolded s2'] by (simp add: check_prices_def Let_def)
  qed
  show ?thesis using d m c l by (simp add: s1_def)
qed

text \<open>
  C9. \<open>check_prices\<close> completes only when every product has a price to compare: if, when
  the comparison runs, some product still has \<open>current_price\<close> \<open>None\<close> (loaded with null
  from the file and not refreshed), the check raises \<open>TypeError\<close> and nothing is handed
  to SMTP; the product is not skipped.
\<close>

theorem null_price_aborts_check:
  "truthy (email_receiver s) \<Longrightarrow>
   p \<in> set (products (fst (update_prices e now force_update s))) \<Longrightarrow>
   current_price p = PyNone \<Longrightarrow>
     snd (check_prices e now force_update s) = Inl TypeError
     \<and> outbox (fst (check_prices e now force_update s)) = outbox s
     \<and> delivered (fst (check_prices e now force_update s)) = delivered s"
proof -
  assume rc: "truthy (email_receiver s)"
    and mem: "p \<in> set (products (fst (update_prices e now force_update s)))"
    and nul: "current_price p = PyNone"
  define s1 where "s1 = fst (update_prices e now force_update s)"
  note fr = update_prices_frame [of e now force_update s, folded s1_def]
  show ?thesis
  proof (cases "snd (update_prices e now force_update s)")
    case (Inl err)
    then have u: "update_prices e now force_update s = (s1, Inl TypeError)"
      using update_prices_error [OF Inl] by (simp add: s1_def prod_eq_iff)
    then show ?thesis using rc fr by (simp add: check_prices_def)
  next
    case (Inr updated)
    then have u: "update_prices e now force_update s = (s1, Inr updated)"
      by (simp add: s1_def prod_eq_iff)
    define s2 where "s2 = (if updated \<noteq> [] then say (Updated_count (length updated)) s1 else s1)"
    have ps2: "products s2 = products s1" and o2: "outbox s2 = outbox s1"
      and d2: "delivered s2 = delivered s1"
      by (simp_all add: s2_def)
    have le: "py_le (current_price p) (target_price p) = Inl TypeError"
      using nul by simp
    have r: "snd (drops_loop (products s2) s2) = Inl TypeError"
      using drops_loop_raises [OF _ le, of "products s2" s2] mem ps2 by (simp add: s1_def)
    then obtain s3 where l: "drops_loop (products s2) s2 = (s3, Inl TypeError)"
      by (cases "drops_loop (products s2) s2") simp
    note f3 = drops_loop_frame [OF l]
    have c: "check_prices e now force_update s = (s3, Inl TypeError)"
      using rc u l by (simp add: check_prices_def s2_def Let_def)
    show ?thesis using c f3 o2 d2 fr by simp
  qed
qed

lemmas run_defs =
  check_prices_def update_prices_def refresh_product_def skip_check_def get_product_price_def
  send_email_def compose_entry_def save_products_def load_products_def say_def
  env_of_def net_page_def net_down_def net_flaky_def store_of_def
  strip_def py_isspace_def remove_char_def float_digits_def is_digit_def
  p_book_def p_lamp_def p_new_def to_dict_def from_dict_def getitem_def Product_def

text \<open>
  C1. After \<open>check_prices\<close> has called \<open>update_prices\<close>, the list \<open>price_drops\<close> is
  exactly the products of the whole store, in store order, whose \<open>current_price\<close> is at
  most their \<open>target_price\<close>: every product with \<open>current_price <= target_price\<close> is in
  it and every product with \<open>current_price > target_price\<close> is not, whether or not the
  refresh updated it; the notifier is called with this list when it is not empty. The
  store is one whose prices can be compared (no \<open>None\<close> among them).
\<close>

theorem price_drops_exact:
  "truthy (email_receiver s) \<Longrightarrow> snd (update_prices e now force_update s) = Inr updated \<Longrightarrow>
   \<forall>p \<in> set (products (fst (update_prices e now force_update s))).
      \<exists>b. py_le (current_price p) (target_price p) = Inr b \<Longrightarrow>
   (let s1 = fst (update_prices e now force_update s);
        s2 = (if updated \<noteq> [] then say (Updated_count (length updated)) s1 else s1);
        drops = filter (\<lambda>p. py_le (current_price p) (target_price p) = Inr True) (products s1)
    in snd (drops_loop (products s2) s2) = Inr drops
       \<and> (\<forall>p \<in> set (products s1). \<forall>c t.
             current_price p = PyNum c \<and> target_price p = PyNum t \<longrightarrow>
               (p \<in> set drops \<longleftrightarrow> c \<le> t))
       \<and> check_prices e now force_update s
           = ((if drops \<noteq> [] then send_email e drops (fst (drops_loop (products s2) s2))
               else fst (drops_loop (products s2) s2)), Inr ()))"
  unfolding Let_def
  by (rule price_drops_aux [OF _ _ _ refl refl]) assumption+

theorem price_drops_exact_witness:
  "truthy (email_receiver (store_of [p_book, p_lamp]))
   \<and> snd (update_prices (env_of net_down None) 5000 True (store_of [p_book, p_lamp])) = Inr []
   \<and> products (fst (update_prices (env_of net_down None) 5000 True (store_of [p_book, p_lamp])))
       = [p_book, p_lamp]
   \<and> py_le (current_price p_book) (target_price p_book) = Inr False
   \<and> py_le (current_price p_lamp) (target_price p_lamp) = Inr True
   \<and> snd (drops_loop [p_book, p_lamp]
            (fst (update_prices (env_of net_down None) 5000 True (store_of [p_book, p_lamp]))))
       = Inr [p_lamp]
   \<and> snd (check_prices (env_of net_down None) 5000 True (store_of [p_book, p_lamp])) = Inr ()"
proof -
  have u: "snd (update_prices (env_of net_down None) 5000 True (store_of [p_book, p_lamp])) = Inr []"
    by (simp add: update_prices_def refresh_product_def skip_check_def get_product_price_def
          env_of_def net_down_def store_of_def say_def)
  have ps: "products (fst (update_prices (env_of net_down None) 5000 True (store_of [p_book, p_lamp])))
       = [p_book, p_lamp]"
    by (simp add: update_prices_def refresh_product_def skip_check_def get_product_price_def
          env_of_def net_down_def store_of_def say_def)
  have b: "py_le (current_price p_book) (target_price p_book) = Inr False"
    and l: "py_le (current_price p_lamp) (target_price p_lamp) = Inr True"
    by (simp_all add: p_book_def p_lamp_def)
  have rc: "truthy (email_receiver (store_of [p_book, p_lamp]))"
    by (simp add: store_of_def)
  have cmp: "\<forall>p \<in> set (products (fst (update_prices (env_of net_down None) 5000 True
                 (store_of [p_book, p_lamp])))).
      \<exists>b. py_le (current_price p) (target_price p) = Inr b"
    using b l by (auto simp: ps)
  show ?thesis
    using price_drops_exact [OF rc u cmp] u ps b l rc
    by (simp add: Let_def)
qed

theorem null_price_aborts_check_witness:
  "truthy (email_receiver store_loaded)
   \<and> p_new \<in> set (products (fst (update_prices (env_of net_down None) 5000 False store_loaded)))
   \<and> current_price p_new = PyNone
   \<and> snd (check_prices (env_of net_down None) 5000 False store_loaded) = Inl TypeError
   \<and> outbox (fst (check_prices (env_of net_down None) 5000 False store_loaded)) = []
   \<and> delivered (fst (check_prices (env_of net_down None) 5000 False store_loaded)) = []"
proof -
  have ld: "store_loaded = store_of [p_new]"
    by (simp add: store_loaded_def load_products_def store_of_def from_dict_to_dict)
  have rc: "truthy (email_receiver store_loaded)"
    by (simp add: ld store_of_def)
  have mem: "p_new \<in> set (products (fst (update_prices (env_of net_down None) 5000 False
                 store_loaded)))"
    by (simp add: ld update_prices_def refresh_product_def skip_check_def get_product_price_def
          env_of_def net_down_def store_of_def say_def p_new_def)
  have nul: "current_price p_new = PyNone"
    by (simp add: p_new_def)
  have o: "outbox store_loaded = []" and d: "delivered store_loaded = []"
    by (simp_all add: ld store_of_def)
  show ?thesis
    using null_price_aborts_check [OF rc mem nul] rc mem nul o d by simp
qed

section \<open>Notification failures\<close>

text \<open>
  C7. Whatever is raised while the email is composed or sent is caught inside
  \<open>send_email\<close>: the function returns, logs the failure and delivers nothing, and the
  products and the file are as before the call. So \<open>check_prices\<close> returns normally
  whatever the SMTP session does, with the products and the file as \<open>update_prices\<close>
  left them.
\<close>

theorem notification_failure_contained:
  "products (send_email e ps s) = products s
   \<and> products_file (send_email e ps s) = products_file s
   \<and> (ps \<noteq> [] \<and>
        (compose_entries e ps = Inl err
         \<or> (compose_entries e ps = Inr xs
             \<and> smtp e (email_sender s) (email_password s)
                  \<lparr>m_from = email_sender s, m_to = email_receiver s, m_entries = xs\<rparr>
                = Some fault)) \<longrightarrow>
        delivered (send_email e ps s) = delivered s
        \<and> console (send_email e ps s) = console s @ [Failed_to_send])
   \<and> (truthy (email_receiver s)
        \<and> snd (update_prices e now force_update s) = Inr updated
        \<and> (\<forall>p \<in> set (products (fst (update_prices e now force_update s))).
              \<exists>b. py_le (current_price p) (target_price p) = Inr b) \<longrightarrow>
        snd (check_prices e now force_update s) = Inr ()
        \<and> products (fst (check_prices e now force_update s))
            = products (fst (update_prices e now force_update s))
        \<and> products_file (fst (check_prices e now force_update s))
            = products_file (fst (update_prices e now force_update s)))"
proof -
  have a: "products (send_email e ps s) = products s
   \<and> products_file (send_email e ps s) = products_file s"
    using send_email_frame [of e ps s] by simp
  have b: "ps \<noteq> [] \<and>
        (compose_entries e ps = Inl err
         \<or> (compose_entries e ps = Inr xs
             \<and> smtp e (email_sender s) (email_password s)
                  \<lparr>m_from = email_sender s, m_to = email_receiver s, m_entries = xs\<rparr>
                = Some fault)) \<longrightarrow>
        delivered (send_email e ps s) = delivered s
        \<and> console (send_email e ps s) = console s @ [Failed_to_send]"
    by (auto simp: send_email_def Let_def say_def)
  have c: "snd (check_prices e now force_update s) = Inr ()
        \<and> products (fst (check_prices e now force_update s))
            = products (fst (update_prices e now force_update s))
        \<and> products_file (fst (check_prices e now force_update s))
            = products_file (fst (update_prices e now force_update s))"
    if rc: "truthy (email_receiver s)"
      and up: "snd (update_prices e now force_update s) = Inr updated"
      and cmp: "\<forall>p \<in> set (products (fst (update_prices e now force_update s))).
              \<exists>b. py_le (current_price p) (target_price p) = Inr b"
  proof -
    define s1 where "s1 = fst (update_prices e now force_update s)"
    define s2 where "s2 = (if updated \<noteq> [] then say (Updated_count (length updated)) s1 else s1)"
    define drops where
      "drops = filter (\<lambda>p. py_le (current_price p) (target_price p) = Inr True) (products s1)"
    define s3 where "s3 = fst (drops_loop (products s2) s2)"
    have f2: "products s2 = products s1 \<and> products_file s2 = products_file s1"
      by (simp add: s2_def)
    have f3: "products s3 = products s2 \<and> products_file s3 = products_file s2"
      using drops_loop_frame [of "products s2" s2 s3 "snd (drops_loop (products s2) s2)"]
      by (simp add: s3_def)
    have ck: "check_prices e now force_update s
           = ((if drops \<noteq> [] then send_email e drops s3 else s3), Inr ())"
      using price_drops_aux [OF rc up cmp, of s2 drops]
      by (simp add: s1_def s2_def drops_def s3_def)
    show ?thesis
      using f2 f3 send_email_frame [of e drops s3]
      by (simp add: ck s1_def [symmetric])
  qed
  show ?thesis using a b c by blast
qed

theorem notification_failure_contained_witness:
  "truthy (email_receiver (store_of [p_lamp]))
   \<and> snd (update_prices env_smtp_down 5000 True (store_of [p_lamp])) = Inr [p_lamp_fresh]
   \<and> py_le (current_price p_lamp_fresh) (target_price p_lamp_fresh) = Inr True
   \<and> smtp env_smtp_down (PyStr ''sender'') (PyStr ''secret'')
        \<lparr>m_from = PyStr ''sender'', m_to = PyStr ''receiver'',
         m_entries = [\<lparr>e_title = PyStr ''Lamp'', e_current = 25, e_target = 30, e_savings = 5,
                       e_url = PyStr ''u2''\<rparr>]\<rparr> = Some Connect_fault
   \<and> snd (check_prices env_smtp_down 5000 True (store_of [p_lamp])) = Inr ()
   \<and> products (fst (check_prices env_smtp_down 5000 True (store_of [p_lamp]))) = [p_lamp_fresh]
   \<and> products_file (fst (check_prices env_smtp_down 5000 True (store_of [p_lamp])))
       = Doc [to_dict p_lamp_fresh]
   \<and> delivered (fst (check_prices env_smtp_down 5000 True (store_of [p_lamp]))) = []"
proof -
  have rc: "truthy (email_receiver (store_of [p_lamp]))"
    by (simp add: store_of_def)
  have up: "snd (update_prices env_smtp_down 5000 True (store_of [p_lamp])) = Inr [p_lamp_fresh]"
    by (simp add: env_smtp_down_def p_lamp_fresh_def run_defs Let_def)
  have ps: "products (fst (update_prices env_smtp_down 5000 True (store_of [p_lamp])))
      = [p_lamp_fresh]"
    by (simp add: env_smtp_down_def p_lamp_fresh_def run_defs Let_def)
  have pf: "products_file (fst (update_prices env_smtp_down 5000 True (store_of [p_lamp])))
      = Doc [to_dict p_lamp_fresh]"
    by (simp add: env_smtp_down_def p_lamp_fresh_def run_defs Let_def)
  have le: "py_le (current_price p_lamp_fresh) (target_price p_lamp_fresh) = Inr True"
    by (simp add: p_lamp_fresh_def p_lamp_def)
  have cmp: "\<forall>p \<in> set (products (fst (update_prices env_smtp_down 5000 True (store_of [p_lamp])))).
              \<exists>b. py_le (current_price p) (target_price p) = Inr b"
    using le by (auto simp: ps)
  have sm: "smtp env_smtp_down (PyStr ''sender'') (PyStr ''secret'')
        \<lparr>m_from = PyStr ''sender'', m_to = PyStr ''receiver'',
         m_entries = [\<lparr>e_title = PyStr ''Lamp'', e_current = 25, e_target = 30, e_savings = 5,
                       e_url = PyStr ''u2''\<rparr>]\<rparr> = Some Connect_fault"
    by (simp add: env_smtp_down_def env_of_def)
  have dl: "delivered (fst (check_prices env_smtp_down 5000 True (store_of [p_lamp]))) = []"
    by (simp add: env_smtp_down_def p_lamp_fresh_def run_defs Let_def)
  show ?thesis
    using notification_failure_contained [where e = env_smtp_down and s = "store_of [p_lamp]"
        and now = 5000 and force_update = True and updated = "[p_lamp_fresh]"]
      rc up ps pf le cmp sm dl
    by simp
qed

section \<open>Refreshing\<close>

lemma skip_check_total:
  "force \<or> last_checked p = PyNone \<or> (\<exists>t. last_checked p = PyNum t) \<Longrightarrow>
     \<exists>b. skip_check e now force p = Inr b"
  by (auto simp: skip_check_def)

lemma refresh_product_total:
  "force \<or> last_checked p = PyNone \<or> (\<exists>t. last_checked p = PyNum t) \<Longrightarrow>
     snd (refresh_product e now force p s) =
       Inr (if skip_check e now force p = Inr True then (p, [])
            else (case get_product_price e (url p) s of
                    (s1, price, ttl) \<Rightarrow>
                      if truthy price \<and> truthy ttl
                      then (p\<lparr>current_price := price, title := ttl, last_checked := PyNum now\<rparr>,
                            [p\<lparr>current_price := price, title := ttl, last_checked := PyNum now\<rparr>])
                      else (p, [])))"
proof -
  assume a: "force \<or> last_checked p = PyNone \<or> (\<exists>t. last_checked p = PyNum t)"
  from skip_check_total [OF a] obtain b where b: "skip_check e now force p = Inr b" by blast
  show ?thesis
    by (cases b) (auto simp: refresh_product_def b Let_def split: prod.splits)
qed


lemma update_loop_total:
  "force \<or> (\<forall>p\<in>set ps. last_checked p = PyNone \<or> (\<exists>t. last_checked p = PyNum t)) \<Longrightarrow>
     snd (snd (snd (update_loop e now force ps s))) = None"
proof (induction ps arbitrary: s)
  case Nil
  show ?case by simp
next
  case (Cons p ps)
  from Cons.prems have a: "force \<or> last_checked p = PyNone \<or> (\<exists>t. last_checked p = PyNum t)"
    by auto
  from Cons.prems have b: "force \<or> (\<forall>p\<in>set ps. last_checked p = PyNone \<or> (\<exists>t. last_checked p = PyNum t))"
    by auto
  obtain sa ra where step: "refresh_product e now force p s = (sa, ra)"
    by (cases "refresh_product e now force p s")
  from refresh_product_total [OF a, of e now s] step obtain pu where ra: "ra = Inr pu"
    by auto
  obtain p' u where pu: "pu = (p', u)" by (cases pu)
  show ?case
    using step ra pu Cons.IH [OF b, of sa]
    by (auto split: prod.splits)
qed




lemmas run_defs2 = run_defs env_flaky_def p_book_fresh_def p_new_fetched_def Let_def



lemma update_loop_updated:
  "update_loop e now force ps s = (s1, ps', upd, r) \<Longrightarrow>
     (\<forall>p\<in>set upd. last_checked p = PyNum now) \<and> set upd \<subseteq> set ps'"
proof (induction ps arbitrary: s s1 ps' upd r)
  case Nil
  then show ?case by simp
next
  case (Cons p ps)
  obtain sa ra where step: "refresh_product e now force p s = (sa, ra)"
    by (cases "refresh_product e now force p s")
  show ?case
  proof (cases ra)
    case (Inl err)
    with Cons.prems step show ?thesis by auto
  next
    case (Inr pu)
    obtain p' u where pu: "pu = (p', u)" by (cases pu)
    obtain sb psb updb rb where rest: "update_loop e now force ps sa = (sb, psb, updb, rb)"
      by (cases "update_loop e now force ps sa") auto
    note ih = Cons.IH [OF rest]
    from Cons.prems step Inr pu rest
    have eqs: "ps' = p' # psb" "upd = u @ updb" by auto
    have u: "(\<forall>q\<in>set u. last_checked q = PyNum now) \<and> set u \<subseteq> {p'}"
      using step Inr pu unfolding refresh_product_def
      by (auto simp: Let_def split: sum.splits bool.splits prod.splits if_splits)
    show ?thesis using eqs ih u by auto
  qed
qed

lemma update_loop_all_skipped:
  "\<forall>p\<in>set ps. skip_check e now force p = Inr True \<Longrightarrow>
     update_loop e now force ps s = (s, ps, [], None)"
  by (induction ps) (simp_all add: refresh_product_def)

lemma update_prices_updated:
  "snd (update_prices e now force s) = Inr updated \<Longrightarrow> p \<in> set updated \<Longrightarrow>
     last_checked p = PyNum now"
proof -
  assume a: "snd (update_prices e now force s) = Inr updated" and m: "p \<in> set updated"
  obtain s1 ps' upd r where l: "update_loop e now force (products s) s = (s1, ps', upd, r)"
    by (cases "update_loop e now force (products s) s") auto
  from a l have "upd = updated"
    by (cases r) (auto simp: update_prices_def Let_def)
  with update_loop_updated [OF l] m show ?thesis by auto
qed

lemma timestamp_ok_cases:
  "timestamp_ok v \<Longrightarrow> v = PyNone \<or> (\<exists>t. v = PyNum t)"
  by (cases v) (simp_all add: timestamp_ok_def)

lemma refresh_product_requests:
  "force \<or> last_checked p = PyNone \<or> (\<exists>t. last_checked p = PyNum t) \<Longrightarrow>
     requests (fst (refresh_product e now force p s))
       = requests s + (if skip_check e now force p = Inr False then 1 else 0)"
proof -
  assume a: "force \<or> last_checked p = PyNone \<or> (\<exists>t. last_checked p = PyNum t)"
  from skip_check_total [OF a] obtain b where b: "skip_check e now force p = Inr b" by blast
  show ?thesis
  proof (cases b)
    case True
    with b show ?thesis by (simp add: refresh_product_def)
  next
    case False
    obtain s1 price ttl where g: "get_product_price e (url p) s = (s1, price, ttl)"
      by (cases "get_product_price e (url p) s") auto
    from get_product_price_frame [OF g] have "requests s1 = requests s + 1" by simp
    with b False g show ?thesis by (simp add: refresh_product_def Let_def)
  qed
qed

lemma update_loop_requests:
  "force \<or> (\<forall>p\<in>set ps. last_checked p = PyNone \<or> (\<exists>t. last_checked p = PyNum t)) \<Longrightarrow>
     requests (fst (update_loop e now force ps s))
       = requests s + length (filter (\<lambda>p. skip_check e now force p = Inr False) ps)"
proof (induction ps arbitrary: s)
  case Nil
  show ?case by simp
next
  case (Cons p ps)
  from Cons.prems have a: "force \<or> last_checked p = PyNone \<or> (\<exists>t. last_checked p = PyNum t)"
    by auto
  from Cons.prems have b: "force \<or> (\<forall>p\<in>set ps. last_checked p = PyNone \<or> (\<exists>t. last_checked p = PyNum t))"
    by auto
  obtain sa ra where step: "refresh_product e now force p s = (sa, ra)"
    by (cases "refresh_product e now force p s")
  from refresh_product_total [OF a, of e now s] step obtain pu where ra: "ra = Inr pu"
    by auto
  obtain p' u where pu: "pu = (p', u)" by (cases pu)
  have rq: "requests sa = requests s + (if skip_check e now force p = Inr False then 1 else 0)"
    using refresh_product_requests [OF a, of e now s] step by simp
  show ?case
    using step ra pu Cons.IH [OF b, of sa] rq
    by (auto split: prod.splits)
qed

lemma update_prices_requests:
  "requests (fst (update_prices e now force s))
     = requests (fst (update_loop e now force (products s) s))"
  by (auto simp: update_prices_def Let_def split: prod.splits option.splits)

lemma update_loop_members:
  "update_loop e now force ps s = (s1, ps', upd, r) \<Longrightarrow>
     \<forall>q\<in>set ps'. q \<in> set ps \<or> q \<in> set upd"
proof (induction ps arbitrary: s s1 ps' upd r)
  case Nil
  then show ?case by simp
next
  case (Cons p ps)
  obtain sa ra where step: "refresh_product e now force p s = (sa, ra)"
    by (cases "refresh_product e now force p s")
  show ?case
  proof (cases ra)
    case (Inl err)
    with Cons.prems step show ?thesis by auto
  next
    case (Inr pu)
    obtain p' u where pu: "pu = (p', u)" by (cases pu)
    obtain sb psb updb rb where rest: "update_loop e now force ps sa = (sb, psb, updb, rb)"
      by (cases "update_loop e now force ps sa") auto
    note ih = Cons.IH [OF rest]
    from Cons.prems step Inr pu rest
    have eqs: "ps' = p' # psb" "upd = u @ updb" by auto
    have u: "p' = p \<or> p' \<in> set u"
      using step Inr pu unfolding refresh_product_def
      by (auto simp: Let_def split: sum.splits bool.splits prod.splits if_splits)
    show ?thesis using eqs ih u by auto
  qed
qed

lemma update_prices_members:
  "snd (update_prices e now force s) = Inr updated \<Longrightarrow>
     \<forall>q\<in>set (products (fst (update_prices e now force s))).
        q \<in> set (products s) \<or> last_checked q = PyNum now"
proof -
  assume a: "snd (update_prices e now force s) = Inr updated"
  obtain s1 ps' upd r where l: "update_loop e now force (products s) s = (s1, ps', upd, r)"
    by (cases "update_loop e now force (products s) s") auto
  from a l have ps: "products (fst (update_prices e now force s)) = ps'"
    by (cases r) (auto simp: update_prices_def Let_def)
  show ?thesis
    using update_loop_members [OF l] update_loop_updated [OF l] ps by auto
qed

lemma skip_check_still_stale:
  "skip_check e now1 False p = Inr False \<Longrightarrow> \<forall>t. fsub e now1 t \<le> fsub e now2 t \<Longrightarrow>
     skip_check e now2 False p = Inr False"
proof (cases "last_checked p")
  case PyNone
  then show ?thesis by (simp add: skip_check_def)
next
  case (PyNum t)
  assume a: "skip_check e now1 False p = Inr False" and m: "\<forall>t. fsub e now1 t \<le> fsub e now2 t"
  from m have "fsub e now1 t \<le> fsub e now2 t" by blast
  with a PyNum show ?thesis by (auto simp: skip_check_def split: if_splits)
next
  case (PyStr x)
  assume a: "skip_check e now1 False p = Inr False"
  with PyStr show ?thesis by (auto simp: skip_check_def split: if_splits)
qed

text \<open>
  C4. \<open>update_prices(force=False)\<close> called twice, the clock of the first call not zero
  and the difference of the two clock readings, as computed in floating point, below
  3600. The second call returns normally and issues exactly one request for each product
  that fails its skip test, and none for the others. Every product updated by the first
  call passes the test. A product without \<open>last_checked\<close> fails it, and so does, when the
  clock has not gone back, every product that failed it at the first call: a product
  whose fetch failed is fetched again. When every product was updated by the first call
  or passes the test, the second call issues no request, returns an empty list and leaves
  the whole state as it is. The timestamps of the store are \<open>None\<close> or numbers within the
  range of \<open>float\<close>.
\<close>

theorem second_refresh_fetches_stale_only:
  "\<forall>p\<in>set (products s). timestamp_ok (last_checked p) \<Longrightarrow>
   snd (update_prices e now1 False s) = Inr updated \<Longrightarrow> now1 \<noteq> 0 \<Longrightarrow>
   fsub e now2 now1 < 3600 \<Longrightarrow>
   (let s1 = fst (update_prices e now1 False s);
        r2 = update_prices e now2 False s1
    in (\<exists>updated2. snd r2 = Inr updated2)
       \<and> requests (fst r2)
           = requests s1
             + length (filter (\<lambda>p. skip_check e now2 False p = Inr False) (products s1))
       \<and> (\<forall>p\<in>set updated. skip_check e now2 False p = Inr True)
       \<and> (\<forall>p\<in>set (products s1).
             \<not> truthy (last_checked p) \<longrightarrow> skip_check e now2 False p = Inr False)
       \<and> ((\<forall>t. fsub e now1 t \<le> fsub e now2 t) \<longrightarrow>
            (\<forall>p\<in>set (products s1).
               skip_check e now1 False p = Inr False \<longrightarrow> skip_check e now2 False p = Inr False))
       \<and> ((\<forall>p\<in>set (products s1). p \<in> set updated \<or> skip_check e now2 False p = Inr True) \<longrightarrow>
            r2 = (s1, Inr []) \<and> requests (fst r2) = requests s1)
       \<and> ((\<exists>p\<in>set (products s1). skip_check e now2 False p = Inr False) \<longrightarrow>
            requests s1 < requests (fst r2)))"
proof -
  assume ok: "\<forall>p\<in>set (products s). timestamp_ok (last_checked p)"
    and up: "snd (update_prices e now1 False s) = Inr updated"
    and nz: "now1 \<noteq> 0" and near: "fsub e now2 now1 < 3600"
  define s1 where "s1 = fst (update_prices e now1 False s)"
  define r2 where "r2 = update_prices e now2 False s1"
  have ok1: "False \<or> (\<forall>p\<in>set (products s1). last_checked p = PyNone \<or> (\<exists>t. last_checked p = PyNum t))"
    using update_prices_members [OF up] ok timestamp_ok_cases
    by (fastforce simp: s1_def)
  have a: "\<exists>updated2. snd r2 = Inr updated2"
    using update_loop_total [OF ok1, of e now2 s1]
    by (auto simp: r2_def update_prices_def Let_def split: prod.splits option.splits)
  have b: "requests (fst r2)
           = requests s1
             + length (filter (\<lambda>p. skip_check e now2 False p = Inr False) (products s1))"
    using update_loop_requests [OF ok1, of e now2 s1]
    by (simp add: r2_def update_prices_requests)
  have c: "\<forall>p\<in>set updated. skip_check e now2 False p = Inr True"
    using update_prices_updated [OF up] nz near by (simp add: skip_check_def)
  have d: "\<forall>p\<in>set (products s1).
             \<not> truthy (last_checked p) \<longrightarrow> skip_check e now2 False p = Inr False"
    by (simp add: skip_check_def)
  have m: "(\<forall>t. fsub e now1 t \<le> fsub e now2 t) \<longrightarrow>
            (\<forall>p\<in>set (products s1).
               skip_check e now1 False p = Inr False \<longrightarrow> skip_check e now2 False p = Inr False)"
    using skip_check_still_stale [of e now1 _ now2] by blast
  have z: "(\<forall>p\<in>set (products s1). p \<in> set updated \<or> skip_check e now2 False p = Inr True) \<longrightarrow>
            r2 = (s1, Inr []) \<and> requests (fst r2) = requests s1"
  proof
    assume h: "\<forall>p\<in>set (products s1). p \<in> set updated \<or> skip_check e now2 False p = Inr True"
    with c have sk: "\<forall>p\<in>set (products s1). skip_check e now2 False p = Inr True" by blast
    have "r2 = (s1, Inr [])"
      using update_loop_all_skipped [OF sk, of s1] by (simp add: r2_def update_prices_def)
    then show "r2 = (s1, Inr []) \<and> requests (fst r2) = requests s1" by simp
  qed
  have g: "(\<exists>p\<in>set (products s1). skip_check e now2 False p = Inr False) \<longrightarrow>
            requests s1 < requests (fst r2)"
  proof
    assume "\<exists>p\<in>set (products s1). skip_check e now2 False p = Inr False"
    then have "filter (\<lambda>p. skip_check e now2 False p = Inr False) (products s1) \<noteq> []"
      by (simp add: filter_empty_conv)
    then show "requests s1 < requests (fst r2)" using b by simp
  qed
  show ?thesis
    unfolding Let_def s1_def [symmetric] r2_def [symmetric]
    using a b c d m z g by blast
qed

theorem second_refresh_fetches_stale_only_witness:
  "timestamp_ok (last_checked p_new) \<and> timestamp_ok (last_checked p_book)
   \<and> timestamp_ok (last_checked p_lamp_recent)
   \<and> (5000::real) \<noteq> 0
   \<and> fsub env_flaky 5010 5000 < 3600
   \<and> snd (update_prices env_flaky 5000 False (store_of [p_new, p_book])) = Inr [p_book_fresh]
   \<and> products (fst (update_prices env_flaky 5000 False (store_of [p_new, p_book])))
       = [p_new, p_book_fresh]
   \<and> requests (fst (update_prices env_flaky 5000 False (store_of [p_new, p_book]))) = 2
   \<and> skip_check env_flaky 5010 False p_new = Inr False
   \<and> skip_check env_flaky 5010 False p_book_fresh = Inr True
   \<and> requests (fst (update_prices env_flaky 5010 False
         (fst (update_prices env_flaky 5000 False (store_of [p_new, p_book]))))) = 3
   \<and> fsub env_page 5010 5000 < 3600
   \<and> snd (update_prices env_page 5000 False (store_of [p_lamp_recent, p_book]))
       = Inr [p_book_fresh]
   \<and> products (fst (update_prices env_page 5000 False (store_of [p_lamp_recent, p_book])))
       = [p_lamp_recent, p_book_fresh]
   \<and> skip_check env_page 5010 False p_lamp_recent = Inr True
   \<and> update_prices env_page 5010 False
         (fst (update_prices env_page 5000 False (store_of [p_lamp_recent, p_book])))
       = (fst (update_prices env_page 5000 False (store_of [p_lamp_recent, p_book])), Inr [])"
proof -
  have tn: "timestamp_ok (last_checked p_new)" and tb: "timestamp_ok (last_checked p_book)"
    and tl: "timestamp_ok (last_checked p_lamp_recent)"
    by (simp_all add: timestamp_ok_def p_new_def p_book_def p_lamp_recent_def p_lamp_def)
  have fa: "fsub env_flaky 5010 5000 < 3600" and fb: "fsub env_page 5010 5000 < 3600"
    by (simp_all add: env_flaky_def env_page_def env_of_def)
  have ua: "snd (update_prices env_flaky 5000 False (store_of [p_new, p_book]))
      = Inr [p_book_fresh]"
    and pa: "products (fst (update_prices env_flaky 5000 False (store_of [p_new, p_book])))
      = [p_new, p_book_fresh]"
    and ra: "requests (fst (update_prices env_flaky 5000 False (store_of [p_new, p_book]))) = 2"
    by (simp_all add: run_defs2)
  have ub: "snd (update_prices env_page 5000 False (store_of [p_lamp_recent, p_book]))
      = Inr [p_book_fresh]"
    and pb: "products (fst (update_prices env_page 5000 False (store_of [p_lamp_recent, p_book])))
      = [p_lamp_recent, p_book_fresh]"
    by (simp_all add: run_defs2 env_page_def p_lamp_recent_def)
  have k1: "skip_check env_flaky 5010 False p_new = Inr False"
    and k2: "skip_check env_flaky 5010 False p_book_fresh = Inr True"
    and k3: "skip_check env_page 5010 False p_lamp_recent = Inr True"
    by (simp_all add: run_defs2 env_page_def p_lamp_recent_def)
  have oka: "\<forall>p\<in>set (products (store_of [p_new, p_book])). timestamp_ok (last_checked p)"
    using tn tb by (simp add: store_of_def)
  have okb: "\<forall>p\<in>set (products (store_of [p_lamp_recent, p_book])). timestamp_ok (last_checked p)"
    using tl tb by (simp add: store_of_def)
  have nz: "(5000::real) \<noteq> 0" by simp
  show ?thesis
    using second_refresh_fetches_stale_only [OF oka ua nz fa]
      second_refresh_fetches_stale_only [OF okb ub nz fb]
      tn tb tl fa fb ua pa ra ub pb k1 k2 k3
    by (simp add: Let_def)
qed

text \<open>A product whose fetch failed in the first call is fetched again ten seconds later,
  and this time updated.\<close>

theorem failed_fetch_retried_counterexample:
  "(5010::real) - 5000 < 3600
   \<and> requests (fst (update_prices env_flaky 5000 False (store_of [p_new]))) = 1
   \<and> snd (update_prices env_flaky 5000 False (store_of [p_new])) = Inr []
   \<and> requests (fst (update_prices env_flaky 5010 False
         (fst (update_prices env_flaky 5000 False (store_of [p_new]))))) = 2
   \<and> snd (update_prices env_flaky 5010 False
         (fst (update_prices env_flaky 5000 False (store_of [p_new])))) = Inr [p_new_fetched]"
  by (simp add: run_defs2)

end
